theory Spec2Isabelle
  imports Main "HOL-Library.Multiset" "HOL-Library.Word"
begin

unbundle bit_operations_syntax

section \<open>The command-frame layer of r2d2.py\<close>

text \<open>
  Python integers are unbounded, so a byte is an \<open>int\<close> and a payload is an
  \<open>int list\<close>. Python's \<open>%\<close> with a positive right operand is the floored
  remainder, which is \<open>mod\<close> on \<open>int\<close>; Python's \<open>~\<close> on an integer is
  \<open>NOT\<close> on \<open>int\<close> (\<open>- k - 1\<close>).
\<close>

subsection \<open>GenCrc (lines 75-81)\<close>

text \<open>
  The \<open>for\<close> loop of \<open>GenCrc\<close>, with the accumulator \<open>ret\<close> as an argument:
  each round adds the byte and reduces modulo 256.
\<close>

fun GenCrc_loop :: "int \<Rightarrow> int list \<Rightarrow> int" where
  "GenCrc_loop ret [] = ret"
| "GenCrc_loop ret (b # bytes) = GenCrc_loop ((ret + b) mod 256) bytes"

text \<open>\<open>return ~ret % 256\<close>: the unary \<open>~\<close> binds tighter than \<open>%\<close>.\<close>

definition GenCrc :: "int list \<Rightarrow> int" where
  "GenCrc bytes = (NOT (GenCrc_loop 0 bytes)) mod 256"

subsection \<open>BuildPacket (lines 84-95)\<close>

text \<open>The \<open>for\<close> loop of \<open>BuildPacket\<close>: \<open>ret.append(b)\<close> for each byte in turn.\<close>

fun BuildPacket_loop :: "int list \<Rightarrow> int list \<Rightarrow> int list" where
  "BuildPacket_loop ret [] = ret"
| "BuildPacket_loop ret (b # bytes) = BuildPacket_loop (ret @ [b]) bytes"

definition BuildPacket :: "int list \<Rightarrow> int list" where
  "BuildPacket bytes =
     (let ret = [0x8D];
          ret = BuildPacket_loop ret bytes;
          ret = ret @ [GenCrc bytes];
          ret = ret @ [0xD8]
      in ret)"

subsection \<open>commandmap (lines 52-72)\<close>

text \<open>
  \<open>dict\<close> applied to a list of pairs stores them from left to right, so for a key
  given twice the later pair stays; \<open>map_of\<close> returns the first match, hence the
  reversal. Looking a key up with \<open>d[key]\<close> raises \<open>KeyError\<close> when it is absent.
\<close>

datatype error = KeyError string

definition dict :: "(string \<times> 'v) list \<Rightarrow> (string \<rightharpoonup> 'v)" where
  "dict pairs = map_of (rev pairs)"

definition getitem :: "(string \<rightharpoonup> 'v) \<Rightarrow> string \<Rightarrow> error + 'v" where
  "getitem d key = (case d key of None \<Rightarrow> Inl (KeyError key) | Some v \<Rightarrow> Inr v)"

definition commandmap :: "string \<rightharpoonup> int list" where
  "commandmap = dict [
     (''laugh'', [0x0A,0x18,0x00,0x1F,0x00,0x32,0x00,0x00,0x00,0x00,0x00]),
     (''yes'', [0x0A,0x17,0x05,0x41,0x00,0x0F]),
     (''no'', [0x0A,0x17,0x05,0x3F,0x00,0x10]),
     (''alarm'', [0x0A,0x17,0x05,0x17,0x00,0x07]),
     (''angry'', [0x0A,0x17,0x05,0x18,0x00,0x08]),
     (''annoyed'', [0x0A,0x17,0x05,0x19,0x00,0x09]),
     (''ionblast'', [0x0A,0x17,0x05,0x1A,0x00,0x0E]),
     (''sad'', [0x0A,0x17,0x05,0x1C,0x00,0x11]),
     (''scared'', [0x0A,0x17,0x05,0x1D,0x00,0x13]),
     (''chatty'', [0x0A,0x17,0x05,0x17,0x00,0x0A]),
     (''confident'', [0x0A,0x17,0x05,0x18,0x00,0x12]),
     (''excited'', [0x0A,0x17,0x05,0x19,0x00,0x0C]),
     (''happy'', [0x0A,0x17,0x05,0x1A,0x00,0x0D]),
     (''laugh2'', [0x0A,0x17,0x05,0x1B,0x00,0x0F]),
     (''surprise'', [0x0A,0x17,0x05,0x1C,0x00,0x18]),
     (''tripod'', [0x0A,0x17,0x0D,0x1D,0x01]),
     (''bipod'', [0x0A,0x17,0x0D,0x1C,0x02]),
     (''rot+'', [0x8D,0x0A,0x17,0x0F,0x1C,0x42,0xB4,0x00,0x00,0xBD,0xD8]),
     (''rot0'', [0x8D,0x0A,0x17,0x0F,0x1E,0x00,0x00,0x00,0x00,0xB1,0xD8])
   ]"

subsection \<open>The device (pygatt) and r2d2_init (lines 98-111)\<close>

text \<open>
  The only thing the program does with the connected device is
  \<open>char_write_handle(handle, value, wait_for_response)\<close>. The device is modelled
  as the list of the writes it has received, oldest first; a write is taken to
  succeed, as the BLE library is outside the program.
\<close>

type_synonym gatt_write = "int \<times> int list \<times> bool"

definition char_write_handle :: "int \<Rightarrow> int list \<Rightarrow> bool \<Rightarrow> gatt_write list \<Rightarrow> gatt_write list" where
  "char_write_handle handle val wait_for_response device =
     device @ [(handle, val, wait_for_response)]"

definition r2d2_init :: "gatt_write list" where
  "r2d2_init =
     (let device = [];
          device = char_write_handle 0x15
            [0x75,0x73,0x65,0x74,0x68,0x65,0x66,0x6F,0x72,0x63,0x65,0x2E,0x2E,0x2E,0x62,0x61,0x6E,0x64]
            True device;
          device = char_write_handle 0x1c [0x8D,0x0A,0x13,0x0D,0x00,0xD5,0xD8] True device;
          device = char_write_handle 0x1c [0x8D,0x0A,0x1A,0x0E,0x1C,0x00,0x80,0xFF,0x32,0xD8] True device
      in device)"

subsection \<open>main (lines 117-177)\<close>

text \<open>
  The state of the control loop: the list \<open>sequences\<close>, created once before the
  loop (line 119), and the device \<open>r2d2\<close>.
\<close>

record state =
  sequences :: "int list list"
  r2d2 :: "gatt_write list"

text \<open>
  The \<open>if\<close>/\<open>elif\<close> chain of lines 133-166, in the order of the source. Each
  branch is a run of \<open>sequences.append(commandmap[name])\<close> statements; the chain
  is given as the value of \<open>valid_command\<close> after it and the names of the
  appended commands, in statement order.
\<close>

definition plan :: "int \<Rightarrow> bool \<times> string list" where
  "plan scancode =
     (if scancode = 65 then (True, [''tripod'', ''yes''])
      else if scancode = 66 then (True, [''bipod'', ''yes''])
      else if scancode = 67 then (True, [''rot0'', ''no''])
      else if scancode = 68 then (True, [''rot+'', ''surprise''])
      else if scancode = 122 then (True, [''laugh'', ''happy'', ''excited''])
      else if scancode = 32 then (True, [''surprise'', ''sad'', ''scared''])
      else if scancode = 120 then (True, [''confident'', ''laugh2''])
      else if scancode = 105 then (True, [''angry'', ''alarm''])
      else if scancode = 111 then (True, [''chatty'', ''ionblast''])
      else (False, []))"

text \<open>
  Running the statements of a branch: each one looks the name up in \<open>commandmap\<close>
  and appends the payload to \<open>sequences\<close>; a missing name stops the program.
\<close>

fun append_commands :: "string list \<Rightarrow> int list list \<Rightarrow> error + int list list" where
  "append_commands [] seqs = Inr seqs"
| "append_commands (name # names) seqs =
     (case getitem commandmap name of
        Inl e \<Rightarrow> Inl e
      | Inr payload \<Rightarrow> append_commands names (seqs @ [payload]))"

text \<open>Lines 170-172: \<open>for seq in sequences: r2d2.char_write_handle(0x1c, BuildPacket(seq), True)\<close>.\<close>

fun execute :: "int list list \<Rightarrow> gatt_write list \<Rightarrow> gatt_write list" where
  "execute [] device = device"
| "execute (seq # seqs) device =
     execute seqs (char_write_handle 0x1c (BuildPacket seq) True device)"

text \<open>
  One round of the \<open>while\<close> loop for the scancode read on line 131: the chain,
  the writes when \<open>valid_command\<close> is true, and \<open>del sequences[:]\<close> (line 175).
\<close>

definition loop_body :: "int \<Rightarrow> state \<Rightarrow> error + state" where
  "loop_body scancode st =
     (case plan scancode of (valid_command, names) \<Rightarrow>
        (case append_commands names (sequences st) of
           Inl e \<Rightarrow> Inl e
         | Inr seqs \<Rightarrow>
             Inr \<lparr> sequences = [],
                   r2d2 = (if valid_command then execute seqs (r2d2 st) else r2d2 st) \<rparr>))"

text \<open>
  The loop never leaves by its condition (\<open>pexit\<close> stays false), so it is
  described by the state it is in when it has read and handled the scancodes
  given and is back at the read of line 131.
\<close>

fun control_loop :: "int list \<Rightarrow> state \<Rightarrow> error + state" where
  "control_loop [] st = Inr st"
| "control_loop (scancode # scancodes) st =
     (case loop_body scancode st of
        Inl e \<Rightarrow> Inl e
      | Inr st' \<Rightarrow> control_loop scancodes st')"

definition main :: "int list \<Rightarrow> error + state" where
  "main scancodes = control_loop scancodes \<lparr> sequences = [], r2d2 = r2d2_init \<rparr>"

subsection \<open>Notions used to state the properties\<close>

text \<open>
  The writes a scancode causes when the loop body runs on it with nothing pending
  and a device that has received nothing.
\<close>

definition emitted :: "int \<Rightarrow> gatt_write list" where
  "emitted scancode =
     (case loop_body scancode \<lparr> sequences = [], r2d2 = [] \<rparr> of
        Inl e \<Rightarrow> []
      | Inr st \<Rightarrow> r2d2 st)"

text \<open>
  The write the specification expects for a command name: the catalog payload of
  the name, framed by \<open>BuildPacket\<close>, sent to handle 0x1c; none for a name that
  the catalog does not have.
\<close>

definition packet :: "string \<Rightarrow> gatt_write option" where
  "packet name = map_option (\<lambda>payload. (0x1c, BuildPacket payload, True)) (commandmap name)"

section \<open>Properties of the checksum and of the frame\<close>

lemma GenCrc_loop_sum: "GenCrc_loop ret bytes = (ret + sum_list bytes) mod 256"
  if "0 \<le> ret" "ret < 256"
  using that
proof (induction bytes arbitrary: ret)
  case Nil
  then show ?case by simp
next
  case (Cons b bytes)
  have "GenCrc_loop ret (b # bytes) = ((ret + b) mod 256 + sum_list bytes) mod 256"
    using Cons.IH [of "(ret + b) mod 256"] by simp
  also have "\<dots> = (ret + b + sum_list bytes) mod 256"
    by (simp add: mod_add_left_eq)
  finally show ?case by (simp add: add.assoc)
qed

lemma GenCrc_loop_0: "GenCrc_loop 0 bytes = sum_list bytes mod 256"
  using GenCrc_loop_sum [of 0 bytes] by simp

lemma GenCrc_eq: "GenCrc bytes = 255 - sum_list bytes mod 256"
proof -
  let ?s = "sum_list bytes mod 256"
  have range: "0 \<le> ?s" "?s < 256" by simp_all
  have "GenCrc bytes = (- ?s - 1) mod 256"
    by (simp add: GenCrc_def GenCrc_loop_0 not_int_def)
  also have "\<dots> = (255 - ?s) mod 256"
  proof -
    have "- ?s - 1 = (255 - ?s) + (- 1) * 256" by simp
    then show ?thesis by (metis mod_mult_self1)
  qed
  also have "\<dots> = 255 - ?s"
    using range by (intro mod_pos_pos_trivial) linarith+
  finally show ?thesis .
qed

lemma BuildPacket_loop_append: "BuildPacket_loop ret bytes = ret @ bytes"
  by (induction bytes arbitrary: ret) simp_all

lemma BuildPacket_eq: "BuildPacket bytes = [0x8D] @ bytes @ [GenCrc bytes] @ [0xD8]"
  by (simp add: BuildPacket_def BuildPacket_loop_append)

text \<open>
  Claim C1. For every payload \<open>P\<close> the packet built is the start marker 0x8D, then
  the bytes of \<open>P\<close> unchanged and in order, then the checksum of \<open>P\<close>, then the end
  marker 0xD8: it is \<open>length P + 3\<close> bytes long, begins with 0x8D, ends with 0xD8,
  and has the checksum as its last byte but one.
\<close>

theorem BuildPacket_frame_shape:
  "BuildPacket P = [0x8D] @ P @ [GenCrc P] @ [0xD8]
   \<and> length (BuildPacket P) = length P + 3
   \<and> hd (BuildPacket P) = 0x8D
   \<and> BuildPacket P ! 0 = 0x8D
   \<and> last (BuildPacket P) = 0xD8
   \<and> BuildPacket P ! (length (BuildPacket P) - 1) = 0xD8
   \<and> BuildPacket P ! (length (BuildPacket P) - 2) = GenCrc P
   \<and> take (length P) (drop 1 (BuildPacket P)) = P"
  by (simp add: BuildPacket_eq nth_append)

text \<open>
  Claim C2. For every payload \<open>P\<close> the checksum is
  \<open>(255 - (sum of the bytes mod 256)) mod 256\<close>, which is the bitwise complement
  of the byte sum modulo 256 masked to eight bits, and is what the complement gives
  on an unsigned 8-bit machine word; the checksum of the empty payload is 255.
  The function is total: the statement holds for every list of integers.
\<close>

theorem GenCrc_complement_of_byte_sum:
  "GenCrc P = (255 - sum_list P mod 256) mod 256
   \<and> GenCrc P = (NOT (sum_list P mod 256)) AND 255
   \<and> GenCrc P = uint (NOT (word_of_int (sum_list P) :: 8 word))
   \<and> GenCrc [] = 255"
proof -
  have a: "GenCrc P = (255 - sum_list P mod 256) mod 256"
    by (simp add: GenCrc_eq)
  have "(NOT (sum_list P mod 256)) AND 255 = (NOT (sum_list P mod 256)) mod 256"
    using take_bit_eq_mask [of 8 "NOT (sum_list P mod 256)"]
    by (simp add: mask_eq_exp_minus_1 take_bit_eq_mod)
  also have "\<dots> = GenCrc P"
    by (simp add: GenCrc_def GenCrc_loop_0)
  finally have b: "GenCrc P = (NOT (sum_list P mod 256)) AND 255"
    by simp
  have c: "GenCrc P = uint (NOT (word_of_int (sum_list P) :: 8 word))"
    by (simp add: GenCrc_def GenCrc_loop_0 unsigned_not_eq uint_word_of_int take_bit_eq_mod)
  have d: "GenCrc [] = 255"
    by (simp add: GenCrc_eq)
  from a b c d show ?thesis by blast
qed

text \<open>
  Claim C3, as stated: the checksum of the payload 0x0A, 0x17, 0x05, 0x41, 0x00 is
  0x92 (146). The bytes add up to 0x67 = 103, not to 109, so the code returns
  255 - 103 = 152 = 0x98 and the stated value is not the one computed.
\<close>

theorem GenCrc_sample_is_not_0x92:
  "GenCrc [0x0A, 0x17, 0x05, 0x41, 0x00] \<noteq> 0x92"
  by (simp add: GenCrc_def)

text \<open>
  Claim C3, amended: the checksum of the payload 0x0A, 0x17, 0x05, 0x41, 0x00 is
  0x98 (152), the complement of the byte sum 0x67 (103).
\<close>

theorem GenCrc_sample_is_0x98:
  "sum_list [0x0A, 0x17, 0x05, 0x41, 0x00 :: int] = 0x67
   \<and> GenCrc [0x0A, 0x17, 0x05, 0x41, 0x00] = 0x98"
  by (simp add: GenCrc_def)

text \<open>
  Claim C9. For every list of input bytes the checksum lies between 0 and 255
  inclusive, although the sum and the complement are computed on unbounded
  integers.
\<close>

theorem GenCrc_fits_byte:
  "0 \<le> GenCrc P \<and> GenCrc P \<le> 255"
  by (simp add: GenCrc_def)

text \<open>
  Claim C10. The checksum does not depend on the order of the payload bytes: if
  \<open>P'\<close> is a reordering of \<open>P\<close> then both have the same checksum, so the packet
  built from the reordered payload carries the checksum of the original one.
\<close>

theorem GenCrc_permutation_invariant:
  "mset P' = mset P \<Longrightarrow>
     GenCrc P' = GenCrc P
     \<and> BuildPacket P' = [0x8D] @ P' @ [GenCrc P] @ [0xD8]"
proof -
  assume "mset P' = mset P"
  then have "sum_list P' = sum_list P"
    by (metis sum_mset_sum_list)
  then have "GenCrc P' = GenCrc P"
    by (simp add: GenCrc_eq)
  then show ?thesis
    by (simp add: BuildPacket_eq)
qed

theorem GenCrc_permutation_invariant_witness:
  "mset [0x41, 0x0A, 0x17 :: int] = mset [0x0A, 0x17, 0x41]
   \<and> [0x41, 0x0A, 0x17 :: int] \<noteq> [0x0A, 0x17, 0x41]
   \<and> GenCrc [0x41, 0x0A, 0x17] = GenCrc [0x0A, 0x17, 0x41]
   \<and> BuildPacket [0x41, 0x0A, 0x17]
       = [0x8D] @ [0x41, 0x0A, 0x17] @ [GenCrc [0x0A, 0x17, 0x41]] @ [0xD8]"
proof -
  have h: "mset [0x41, 0x0A, 0x17 :: int] = mset [0x0A, 0x17, 0x41]"
    by (simp add: add_mset_commute)
  show ?thesis
    using h GenCrc_permutation_invariant [OF h] by simp
qed

section \<open>Properties of the catalog, the event table and the control loop\<close>

lemma commandmap_lookup:
  "commandmap ''laugh'' = Some [0x0A,0x18,0x00,0x1F,0x00,0x32,0x00,0x00,0x00,0x00,0x00]"
  "commandmap ''yes'' = Some [0x0A,0x17,0x05,0x41,0x00,0x0F]"
  "commandmap ''no'' = Some [0x0A,0x17,0x05,0x3F,0x00,0x10]"
  "commandmap ''alarm'' = Some [0x0A,0x17,0x05,0x17,0x00,0x07]"
  "commandmap ''angry'' = Some [0x0A,0x17,0x05,0x18,0x00,0x08]"
  "commandmap ''annoyed'' = Some [0x0A,0x17,0x05,0x19,0x00,0x09]"
  "commandmap ''ionblast'' = Some [0x0A,0x17,0x05,0x1A,0x00,0x0E]"
  "commandmap ''sad'' = Some [0x0A,0x17,0x05,0x1C,0x00,0x11]"
  "commandmap ''scared'' = Some [0x0A,0x17,0x05,0x1D,0x00,0x13]"
  "commandmap ''chatty'' = Some [0x0A,0x17,0x05,0x17,0x00,0x0A]"
  "commandmap ''confident'' = Some [0x0A,0x17,0x05,0x18,0x00,0x12]"
  "commandmap ''excited'' = Some [0x0A,0x17,0x05,0x19,0x00,0x0C]"
  "commandmap ''happy'' = Some [0x0A,0x17,0x05,0x1A,0x00,0x0D]"
  "commandmap ''laugh2'' = Some [0x0A,0x17,0x05,0x1B,0x00,0x0F]"
  "commandmap ''surprise'' = Some [0x0A,0x17,0x05,0x1C,0x00,0x18]"
  "commandmap ''tripod'' = Some [0x0A,0x17,0x0D,0x1D,0x01]"
  "commandmap ''bipod'' = Some [0x0A,0x17,0x0D,0x1C,0x02]"
  "commandmap ''rot+'' = Some [0x8D,0x0A,0x17,0x0F,0x1C,0x42,0xB4,0x00,0x00,0xBD,0xD8]"
  "commandmap ''rot0'' = Some [0x8D,0x0A,0x17,0x0F,0x1E,0x00,0x00,0x00,0x00,0xB1,0xD8]"
  by (simp_all add: commandmap_def dict_def)

lemma execute_eq:
  "execute seqs device = device @ map (\<lambda>seq. (0x1c, BuildPacket seq, True)) seqs"
  by (induction seqs arbitrary: device) (simp_all add: char_write_handle_def)

lemma append_commands_eq:
  "set names \<subseteq> dom commandmap \<Longrightarrow>
     append_commands names seqs = Inr (seqs @ map (\<lambda>name. the (commandmap name)) names)"
  by (induction names arbitrary: seqs) (auto simp: getitem_def)

lemma plan_cases:
  "plan c \<in> {(True, [''tripod'', ''yes'']), (True, [''bipod'', ''yes'']), (True, [''rot0'', ''no'']),
     (True, [''rot+'', ''surprise'']), (True, [''laugh'', ''happy'', ''excited'']),
     (True, [''surprise'', ''sad'', ''scared'']), (True, [''confident'', ''laugh2'']),
     (True, [''angry'', ''alarm'']), (True, [''chatty'', ''ionblast'']), (False, [])}"
  by (simp add: plan_def)

lemma plan_names_known: "set (snd (plan c)) \<subseteq> dom commandmap"
  using plan_cases [of c] by (auto simp: commandmap_lookup)

lemma plan_unmapped: "\<not> fst (plan c) \<Longrightarrow> snd (plan c) = []"
  using plan_cases [of c] by auto

lemma loop_body_eq:
  "loop_body c st =
     Inr \<lparr> sequences = [],
           r2d2 = (if fst (plan c)
                   then r2d2 st @ map (\<lambda>seq. (0x1c, BuildPacket seq, True))
                          (sequences st @ map (\<lambda>name. the (commandmap name)) (snd (plan c)))
                   else r2d2 st) \<rparr>"
  by (simp add: loop_body_def split_beta append_commands_eq [OF plan_names_known] execute_eq)

lemma emitted_eq:
  "emitted c = map (\<lambda>name. (0x1c, BuildPacket (the (commandmap name)), True)) (snd (plan c))"
  by (simp add: emitted_def loop_body_eq plan_unmapped comp_def)

lemma loop_body_fresh:
  "loop_body c \<lparr> sequences = [], r2d2 = device \<rparr> =
     Inr \<lparr> sequences = [], r2d2 = device @ emitted c \<rparr>"
  by (simp add: loop_body_eq emitted_eq plan_unmapped comp_def)

lemma control_loop_fresh:
  "control_loop cs \<lparr> sequences = [], r2d2 = device \<rparr> =
     Inr \<lparr> sequences = [], r2d2 = device @ concat (map emitted cs) \<rparr>"
  by (induction cs arbitrary: device) (simp_all add: loop_body_fresh)

text \<open>
  Claim C4. Each mapped scancode selects the ordered list of command names of its
  table row: 65 tripod, yes; 66 bipod, yes; 67 rot0, no; 68 rot+, surprise;
  122 laugh, happy, excited; 32 surprise, sad, scared; 120 confident, laugh2;
  105 angry, alarm; 111 chatty, ionblast. The round of the loop appends to what the
  device has received exactly one packet per name of the row, in the order of the
  row, each being the packet of that name.
\<close>

theorem plan_rows_emitted_in_order:
  "(loop_body c \<lparr> sequences = [], r2d2 = device \<rparr>
      = Inr \<lparr> sequences = [], r2d2 = device @ emitted c \<rparr>)
   \<and> plan 65 = (True, [''tripod'', ''yes''])
   \<and> map Some (emitted 65) = map packet [''tripod'', ''yes'']
   \<and> plan 66 = (True, [''bipod'', ''yes''])
   \<and> map Some (emitted 66) = map packet [''bipod'', ''yes'']
   \<and> plan 67 = (True, [''rot0'', ''no''])
   \<and> map Some (emitted 67) = map packet [''rot0'', ''no'']
   \<and> plan 68 = (True, [''rot+'', ''surprise''])
   \<and> map Some (emitted 68) = map packet [''rot+'', ''surprise'']
   \<and> plan 122 = (True, [''laugh'', ''happy'', ''excited''])
   \<and> map Some (emitted 122) = map packet [''laugh'', ''happy'', ''excited'']
   \<and> plan 32 = (True, [''surprise'', ''sad'', ''scared''])
   \<and> map Some (emitted 32) = map packet [''surprise'', ''sad'', ''scared'']
   \<and> plan 120 = (True, [''confident'', ''laugh2''])
   \<and> map Some (emitted 120) = map packet [''confident'', ''laugh2'']
   \<and> plan 105 = (True, [''angry'', ''alarm''])
   \<and> map Some (emitted 105) = map packet [''angry'', ''alarm'']
   \<and> plan 111 = (True, [''chatty'', ''ionblast''])
   \<and> map Some (emitted 111) = map packet [''chatty'', ''ionblast'']"
  by (simp add: loop_body_fresh) (simp add: emitted_eq plan_def packet_def commandmap_lookup)

text \<open>
  Claim C5. For every scancode other than 65, 66, 67, 68, 122, 32, 120, 105 and
  111 the chain selects no command, nothing is written to the device, and the
  round ends normally, not with an error.
\<close>

theorem unmapped_scancode_emits_nothing:
  "c \<notin> {65, 66, 67, 68, 122, 32, 120, 105, 111} \<Longrightarrow>
     plan c = (False, [])
     \<and> emitted c = []
     \<and> loop_body c st = Inr \<lparr> sequences = [], r2d2 = r2d2 st \<rparr>"
proof -
  assume "c \<notin> {65, 66, 67, 68, 122, 32, 120, 105, 111}"
  then have p: "plan c = (False, [])"
    by (simp add: plan_def)
  then show ?thesis
    by (simp add: emitted_eq loop_body_eq)
qed

theorem unmapped_scancode_emits_nothing_witness:
  "(97 :: int) \<notin> {65, 66, 67, 68, 122, 32, 120, 105, 111}
   \<and> plan 97 = (False, [])
   \<and> emitted 97 = []
   \<and> loop_body 97 \<lparr> sequences = [], r2d2 = r2d2_init \<rparr>
       = Inr \<lparr> sequences = [], r2d2 = r2d2_init \<rparr>"
proof -
  have h: "(97 :: int) \<notin> {65, 66, 67, 68, 122, 32, 120, 105, 111}"
    by simp
  show ?thesis
    using h unmapped_scancode_emits_nothing [OF h, of "\<lparr> sequences = [], r2d2 = r2d2_init \<rparr>"]
    by simp
qed

text \<open>
  Claim C6. Every payload selected by a scancode is framed in the same way, from
  the bytes the catalog stores: start marker, the stored bytes, their checksum, end
  marker. This includes \<open>rot+\<close> and \<open>rot0\<close>, whose stored bytes already begin
  with 0x8D and end with 0xD8: their packets carry the markers twice.
\<close>

theorem catalog_entries_framed_verbatim:
  "(\<exists>payloads.
      map commandmap (snd (plan c)) = map Some payloads
      \<and> loop_body c \<lparr> sequences = [], r2d2 = device \<rparr>
          = Inr \<lparr> sequences = [],
                  r2d2 = device @ map (\<lambda>p. (0x1c, [0x8D] @ p @ [GenCrc p] @ [0xD8], True)) payloads \<rparr>)
   \<and> commandmap ''rot+'' = Some [0x8D,0x0A,0x17,0x0F,0x1C,0x42,0xB4,0x00,0x00,0xBD,0xD8]
   \<and> commandmap ''rot0'' = Some [0x8D,0x0A,0x17,0x0F,0x1E,0x00,0x00,0x00,0x00,0xB1,0xD8]
   \<and> emitted 68 =
       [(0x1c, [0x8D, 0x8D,0x0A,0x17,0x0F,0x1C,0x42,0xB4,0x00,0x00,0xBD,0xD8, 0x9B, 0xD8], True),
        (0x1c, [0x8D, 0x0A,0x17,0x05,0x1C,0x00,0x18, 0xA5, 0xD8], True)]
   \<and> emitted 67 =
       [(0x1c, [0x8D, 0x8D,0x0A,0x17,0x0F,0x1E,0x00,0x00,0x00,0x00,0xB1,0xD8, 0x9B, 0xD8], True),
        (0x1c, [0x8D, 0x0A,0x17,0x05,0x3F,0x00,0x10, 0x8A, 0xD8], True)]"
proof -
  let ?ps = "map (\<lambda>name. the (commandmap name)) (snd (plan c))"
  have "map commandmap (snd (plan c)) = map Some ?ps"
    using plan_names_known [of c] by (auto simp: subset_iff)
  moreover have "loop_body c \<lparr> sequences = [], r2d2 = device \<rparr>
      = Inr \<lparr> sequences = [],
              r2d2 = device @ map (\<lambda>p. (0x1c, [0x8D] @ p @ [GenCrc p] @ [0xD8], True)) ?ps \<rparr>"
    by (simp add: loop_body_fresh emitted_eq comp_def BuildPacket_eq)
  ultimately have general: "\<exists>payloads.
      map commandmap (snd (plan c)) = map Some payloads
      \<and> loop_body c \<lparr> sequences = [], r2d2 = device \<rparr>
          = Inr \<lparr> sequences = [],
                  r2d2 = device @ map (\<lambda>p. (0x1c, [0x8D] @ p @ [GenCrc p] @ [0xD8], True)) payloads \<rparr>"
    by blast
  have right: "emitted 68 =
       [(0x1c, [0x8D, 0x8D,0x0A,0x17,0x0F,0x1C,0x42,0xB4,0x00,0x00,0xBD,0xD8, 0x9B, 0xD8], True),
        (0x1c, [0x8D, 0x0A,0x17,0x05,0x1C,0x00,0x18, 0xA5, 0xD8], True)]"
    by (simp add: emitted_eq plan_def commandmap_lookup BuildPacket_eq GenCrc_def)
  have left: "emitted 67 =
       [(0x1c, [0x8D, 0x8D,0x0A,0x17,0x0F,0x1E,0x00,0x00,0x00,0x00,0xB1,0xD8, 0x9B, 0xD8], True),
        (0x1c, [0x8D, 0x0A,0x17,0x05,0x3F,0x00,0x10, 0x8A, 0xD8], True)]"
    by (simp add: emitted_eq plan_def commandmap_lookup BuildPacket_eq GenCrc_def)
  from general right left show ?thesis
    by (simp add: commandmap_lookup)
qed

lemma catalog_payload_bytes:
  "p \<in> ran commandmap \<Longrightarrow> p \<noteq> [] \<and> (\<forall>b \<in> set p. 0 \<le> b \<and> b \<le> 255)"
proof -
  assume "p \<in> ran commandmap"
  then obtain name where "commandmap name = Some p"
    by (auto simp: ran_def)
  then have "(name, p) \<in> set (rev [
     (''laugh'', [0x0A,0x18,0x00,0x1F,0x00,0x32,0x00,0x00,0x00,0x00,0x00]),
     (''yes'', [0x0A,0x17,0x05,0x41,0x00,0x0F]),
     (''no'', [0x0A,0x17,0x05,0x3F,0x00,0x10]),
     (''alarm'', [0x0A,0x17,0x05,0x17,0x00,0x07]),
     (''angry'', [0x0A,0x17,0x05,0x18,0x00,0x08]),
     (''annoyed'', [0x0A,0x17,0x05,0x19,0x00,0x09]),
     (''ionblast'', [0x0A,0x17,0x05,0x1A,0x00,0x0E]),
     (''sad'', [0x0A,0x17,0x05,0x1C,0x00,0x11]),
     (''scared'', [0x0A,0x17,0x05,0x1D,0x00,0x13]),
     (''chatty'', [0x0A,0x17,0x05,0x17,0x00,0x0A]),
     (''confident'', [0x0A,0x17,0x05,0x18,0x00,0x12]),
     (''excited'', [0x0A,0x17,0x05,0x19,0x00,0x0C]),
     (''happy'', [0x0A,0x17,0x05,0x1A,0x00,0x0D]),
     (''laugh2'', [0x0A,0x17,0x05,0x1B,0x00,0x0F]),
     (''surprise'', [0x0A,0x17,0x05,0x1C,0x00,0x18]),
     (''tripod'', [0x0A,0x17,0x0D,0x1D,0x01]),
     (''bipod'', [0x0A,0x17,0x0D,0x1C,0x02]),
     (''rot+'', [0x8D,0x0A,0x17,0x0F,0x1C,0x42,0xB4,0x00,0x00,0xBD,0xD8]),
     (''rot0'', [0x8D,0x0A,0x17,0x0F,0x1E,0x00,0x00,0x00,0x00,0xB1,0xD8])
   ])"
    unfolding commandmap_def dict_def by (rule map_of_SomeD)
  then show ?thesis
    by auto
qed

text \<open>
  Claim C7. Every command name of the event table is a key of the catalog, so
  that the lookups of every branch succeed, and every payload of the catalog is
  a non-empty sequence of bytes: it is not the empty list and each of its
  elements lies between 0 and 255.
\<close>

theorem planned_names_in_catalog:
  "set [''tripod'', ''yes'', ''bipod'', ''rot0'', ''no'', ''rot+'', ''surprise'', ''laugh'',
        ''happy'', ''excited'', ''sad'', ''scared'', ''confident'', ''laugh2'', ''angry'',
        ''alarm'', ''chatty'', ''ionblast''] \<subseteq> dom commandmap
   \<and> set (snd (plan c)) \<subseteq> dom commandmap
   \<and> (\<exists>seqs. append_commands (snd (plan c)) [] = Inr seqs)
   \<and> [] \<notin> ran commandmap
   \<and> (\<forall>p \<in> ran commandmap. p \<noteq> [] \<and> (\<forall>b \<in> set p. 0 \<le> b \<and> b \<le> 255))"
proof -
  have names: "set [''tripod'', ''yes'', ''bipod'', ''rot0'', ''no'', ''rot+'', ''surprise'', ''laugh'',
        ''happy'', ''excited'', ''sad'', ''scared'', ''confident'', ''laugh2'', ''angry'',
        ''alarm'', ''chatty'', ''ionblast''] \<subseteq> dom commandmap"
    by (simp add: dom_def commandmap_lookup)
  have resolve: "\<exists>seqs. append_commands (snd (plan c)) [] = Inr seqs"
    by (simp add: append_commands_eq [OF plan_names_known])
  have nonempty: "[] \<notin> ran commandmap"
    using catalog_payload_bytes [of "[]"] by blast
  have bytes: "\<forall>p \<in> ran commandmap. p \<noteq> [] \<and> (\<forall>b \<in> set p. 0 \<le> b \<and> b \<le> 255)"
    using catalog_payload_bytes by blast
  from names resolve nonempty bytes plan_names_known [of c] show ?thesis
    by blast
qed

theorem planned_names_in_catalog_witness:
  "[0x8D,0x0A,0x17,0x0F,0x1C,0x42,0xB4,0x00,0x00,0xBD,0xD8] \<in> ran commandmap
   \<and> (0xD8 :: int) \<in> set [0x8D,0x0A,0x17,0x0F,0x1C,0x42,0xB4,0x00,0x00,0xBD,0xD8]
   \<and> [0x8D,0x0A,0x17,0x0F,0x1C,0x42,0xB4,0x00,0x00,0xBD,0xD8 :: int] \<noteq> []
   \<and> (0 :: int) \<le> 0xD8 \<and> (0xD8 :: int) \<le> 255
   \<and> set (snd (plan 68)) \<subseteq> dom commandmap
   \<and> (\<exists>seqs. append_commands (snd (plan 68)) [] = Inr seqs)"
proof -
  have h: "[0x8D,0x0A,0x17,0x0F,0x1C,0x42,0xB4,0x00,0x00,0xBD,0xD8] \<in> ran commandmap"
    using commandmap_lookup(18) by (rule ranI)
  show ?thesis
    using h planned_names_in_catalog [of 68] by simp
qed

text \<open>
  Claim C8. Whatever the scancode and whatever the state before, a round of the
  loop ends with an empty \<open>sequences\<close> list. Hence, however many scancodes the
  program has handled, \<open>sequences\<close> is empty before the next read, and the device
  has received the start-up writes followed, for each scancode in turn, by the
  writes of that scancode alone: nothing is carried over from one event to a
  later one.
\<close>

theorem sequences_empty_after_each_round:
  "(\<exists>st'. loop_body c st = Inr st' \<and> sequences st' = [])
   \<and> main cs = Inr \<lparr> sequences = [], r2d2 = r2d2_init @ concat (map emitted cs) \<rparr>"
  by (simp add: loop_body_eq main_def control_loop_fresh)

end
